theory Spec2Isabelle
  imports Complex_Main "HOL-Library.Sublist"
begin

section \<open>Python strings\<close>

text \<open>
  A Python \<open>str\<close> is a sequence of Unicode code points, so a string is a list of
  natural numbers and \<open>len\<close> is \<open>length\<close>. An ASCII literal of the source is written
  \<open>lit ''...''\<close>; the Cyrillic literals of the source are given by their code points.
\<close>

type_synonym str = "nat list"

text \<open>
  \<open>str.lower()\<close> is the Unicode case mapping of the Python library. It is not defined
  here: it is the parameter \<open>lower\<close> of every function that calls it, and the
  properties hold for every such mapping.
\<close>

definition lit :: "string \<Rightarrow> str" where
  "lit s = map of_char s"

text \<open>
  \<open>str.isspace\<close> on one code point. The same set of code points is what \<open>str.strip()\<close>,
  \<open>str.split()\<close> and the regular-expression class \<open>\s\<close> (on \<open>str\<close> patterns) use.
\<close>

definition isspace :: "nat \<Rightarrow> bool" where
  "isspace c \<longleftrightarrow>
     (9 \<le> c \<and> c \<le> 13) \<or> (28 \<le> c \<and> c \<le> 32) \<or> c = 133 \<or> c = 160 \<or> c = 5760 \<or>
     (8192 \<le> c \<and> c \<le> 8202) \<or> c = 8232 \<or> c = 8233 \<or> c = 8239 \<or> c = 8287 \<or> c = 12288"

text \<open>\<open>s.strip()\<close>: leading and trailing whitespace removed.\<close>

definition strip :: "str \<Rightarrow> str" where
  "strip s = rev (dropWhile isspace (rev (dropWhile isspace s)))"

text \<open>
  \<open>s.split()\<close> with no separator: the maximal runs of non-whitespace characters, in order.
  \<open>split_ws cur s\<close> scans \<open>s\<close> with the word read so far in \<open>cur\<close>.
\<close>

fun split_ws :: "str \<Rightarrow> str \<Rightarrow> str list" where
  "split_ws cur [] = (if cur = [] then [] else [cur])"
| "split_ws cur (c # cs) =
     (if isspace c then (if cur = [] then split_ws [] cs else cur # split_ws [] cs)
      else split_ws (cur @ [c]) cs)"

definition split :: "str \<Rightarrow> str list" where
  "split s = split_ws [] s"

text \<open>\<open>s.startswith(p)\<close>, \<open>s.endswith(p)\<close> and \<open>sub in s\<close>.\<close>

definition startswith :: "str \<Rightarrow> str \<Rightarrow> bool" where
  "startswith s p = prefix p s"

definition endswith :: "str \<Rightarrow> str \<Rightarrow> bool" where
  "endswith s p = suffix p s"

definition str_in :: "str \<Rightarrow> str \<Rightarrow> bool" where
  "str_in sub s = sublist sub s"

text \<open>\<open>s.find(sub)\<close>: the lowest index at which \<open>sub\<close> occurs in \<open>s\<close>, or \<open>-1\<close>.\<close>

fun str_find :: "str \<Rightarrow> str \<Rightarrow> int" where
  "str_find [] sub = (if sub = [] then 0 else - 1)"
| "str_find (c # cs) sub =
     (if prefix sub (c # cs) then 0
      else (let r = str_find cs sub in if r < 0 then - 1 else r + 1))"

text \<open>
  A slice \<open>s[a:b]\<close>; \<open>None\<close> stands for an omitted bound. A negative index counts from
  the end, and every index is clamped to the string.
\<close>

definition slice_index :: "nat \<Rightarrow> int \<Rightarrow> nat" where
  "slice_index n i = (if i < 0 then nat (max 0 (int n + i)) else min n (nat i))"

definition slice :: "str \<Rightarrow> int option \<Rightarrow> int option \<Rightarrow> str" where
  "slice s a b =
     (let n = length s;
          lo = (case a of None \<Rightarrow> 0 | Some i \<Rightarrow> slice_index n i);
          hi = (case b of None \<Rightarrow> n | Some i \<Rightarrow> slice_index n i)
      in take (hi - lo) (drop lo s))"

section \<open>Documents\<close>

text \<open>
  The dictionary built by \<open>extract_instruction_info\<close>. The key \<open>preview\<close> is absent
  until a search attaches it.
\<close>

record document =
  doc_id :: str
  title :: str
  content :: str
  images :: "str list"
  modified :: real
  preview :: "str option"

section \<open>The title pattern\<close>

text \<open>
  \<open>TITLE_PATTERN = re.compile(r'#\s+(.+)$', re.MULTILINE)\<close> and its \<open>search\<close>, which
  returns the first group of the leftmost match. The pattern has no anchor at its left
  end, so a match may start at any \<open>#\<close>.

  At a position after the whitespace, \<open>(.+)$\<close> takes the longest run of characters other
  than the newline; the run ends at the end of the string or before a newline, which is
  where \<open>$\<close> holds under \<open>MULTILINE\<close>, and the group fails only when the run is empty.
\<close>

definition dot_plus_eol :: "str \<Rightarrow> str option" where
  "dot_plus_eol s =
     (let g = takeWhile (\<lambda>c. c \<noteq> 10) s in if g = [] then None else Some g)"

text \<open>
  \<open>\s+\<close> is greedy: it first takes all \<open>k\<close> whitespace characters that follow the
  \<open>#\<close>, and gives them back one at a time (down to one) while the rest of the pattern
  fails. \<open>ws_backtrack j s\<close> tries \<open>j\<close>, then \<open>j - 1\<close>, ..., then \<open>1\<close> whitespace characters.
\<close>

fun ws_backtrack :: "nat \<Rightarrow> str \<Rightarrow> str option" where
  "ws_backtrack 0 s = None"
| "ws_backtrack (Suc j) s =
     (case dot_plus_eol (drop (Suc j) s) of Some g \<Rightarrow> Some g | None \<Rightarrow> ws_backtrack j s)"

text \<open>A match that starts at the head of \<open>s\<close>.\<close>

definition title_match_at :: "str \<Rightarrow> str option" where
  "title_match_at s =
     (case s of
        [] \<Rightarrow> None
      | c # rest \<Rightarrow>
          if c = 35 then ws_backtrack (length (takeWhile isspace rest)) rest else None)"

text \<open>\<open>TITLE_PATTERN.search(content)\<close>, giving \<open>match.group(1)\<close>: the leftmost start wins.\<close>

fun title_search :: "str \<Rightarrow> str option" where
  "title_search [] = None"
| "title_search (c # rest) =
     (case title_match_at (c # rest) of Some g \<Rightarrow> Some g | None \<Rightarrow> title_search rest)"

section \<open>The file system\<close>

text \<open>
  What the calls of \<open>os\<close> and \<open>open\<close> return on one state of the disk. A call that
  raises returns \<open>Inl e\<close>, with \<open>e\<close> the text \<open>str(e)\<close> of the exception. \<open>read_text\<close>
  is \<open>open(path, 'r', encoding='utf-8')\<close> followed by \<open>read()\<close>.
\<close>

record filesystem =
  path_exists :: "str \<Rightarrow> bool"
  path_isdir :: "str \<Rightarrow> bool"
  getmtime :: "str \<Rightarrow> str + real"
  listdir :: "str \<Rightarrow> str + str list"
  read_text :: "str \<Rightarrow> str + str"

text \<open>\<open>os.path.join\<close> of two components and \<open>os.path.basename\<close>, as in \<open>posixpath\<close>.\<close>

definition path_join :: "str \<Rightarrow> str \<Rightarrow> str" where
  "path_join a b =
     (if startswith b [47] then b
      else if a = [] \<or> endswith a [47] then a @ b
      else a @ [47] @ b)"

definition basename :: "str \<Rightarrow> str" where
  "basename p = rev (takeWhile (\<lambda>c. c \<noteq> 47) (rev p))"

section \<open>The metadata extractor\<close>

text \<open>
  The two Cyrillic message prefixes of the source, by code point: the one of line 62
  (``error reading the file'', then a colon and a space) and the one of line 71
  (``error'', then a colon and a space).
\<close>

definition read_error_label :: str where
  "read_error_label =
     [1054, 1096, 1080, 1073, 1082, 1072, 32, 1095, 1090, 1077, 1085, 1080, 1103, 32,
      1092, 1072, 1081, 1083, 1072, 58, 32]"

definition error_label :: str where
  "error_label = [1054, 1096, 1080, 1073, 1082, 1072, 58, 32]"

definition image_extensions :: "str list" where
  "image_extensions = [lit ''.jpg'', lit ''.jpeg'', lit ''.png'', lit ''.gif'', lit ''.webp'']"

text \<open>The body of the loop over \<open>os.listdir(folder_path)\<close> (lines 50-64).\<close>

definition process_file ::
  "(str \<Rightarrow> str) \<Rightarrow> filesystem \<Rightarrow> str \<Rightarrow> document \<Rightarrow> str \<Rightarrow> document" where
  "process_file lower fs folder_path info file =
     (let file_path = path_join folder_path file in
      if endswith file (lit ''.md'') then
        (case read_text fs file_path of
           Inr content' \<Rightarrow>
             (case title_search content' of
                Some g \<Rightarrow> info\<lparr>title := g, content := content'\<rparr>
              | None \<Rightarrow> info\<lparr>content := content'\<rparr>)
         | Inl e \<Rightarrow> info\<lparr>content := read_error_label @ e\<rparr>)
      else if list_ex (\<lambda>ext. endswith (lower file) ext) image_extensions then
        info\<lparr>images := images info @ [file]\<rparr>
      else info)"

text \<open>The dictionary returned by the outer \<open>except\<close> (lines 69-75).\<close>

definition error_info :: "str \<Rightarrow> str \<Rightarrow> document" where
  "error_info folder_path e =
     \<lparr>doc_id = basename folder_path, title = error_label @ e, content = [], images = [],
      modified = 0, preview = None\<rparr>"

definition extract_instruction_info :: "(str \<Rightarrow> str) \<Rightarrow> filesystem \<Rightarrow> str \<Rightarrow> document" where
  "extract_instruction_info lower fs folder_path =
     (case (if path_exists fs folder_path then getmtime fs folder_path else Inr 0) of
        Inl e \<Rightarrow> error_info folder_path e
      | Inr m \<Rightarrow>
          (let info = \<lparr>doc_id = basename folder_path, title = basename folder_path,
                        content = [], images = [], modified = m, preview = None\<rparr>
           in if \<not> path_exists fs folder_path then info
              else (case listdir fs folder_path of
                      Inl e \<Rightarrow> error_info folder_path e
                    | Inr files \<Rightarrow> foldl (process_file lower fs folder_path) info files)))"

section \<open>The folder scanner\<close>

text \<open>
  \<open>list.sort(key=..., reverse=True)\<close>: the list is reversed, sorted stably by ascending
  key, and reversed again.
\<close>

definition sort_reverse :: "document list \<Rightarrow> document list" where
  "sort_reverse xs = rev (sort_key modified (rev xs))"

text \<open>The body of the loop over \<open>os.listdir(data_folder)\<close> (lines 88-92).\<close>

definition scan_folder ::
  "(str \<Rightarrow> str) \<Rightarrow> filesystem \<Rightarrow> str \<Rightarrow> document list \<Rightarrow> str \<Rightarrow> document list" where
  "scan_folder lower fs data_folder instructions folder =
     (let folder_path = path_join data_folder folder in
      if path_isdir fs folder_path then
        (let info = extract_instruction_info lower fs folder_path in
         if content info \<noteq> [] then instructions @ [info] else instructions)
      else instructions)"

text \<open>\<open>data_folder\<close> is \<open>app.config['DATA_FOLDER']\<close>, the value of \<open>get_instruction_path()\<close>.\<close>

definition scan_instructions :: "(str \<Rightarrow> str) \<Rightarrow> filesystem \<Rightarrow> str \<Rightarrow> document list" where
  "scan_instructions lower fs data_folder =
     (if \<not> path_exists fs data_folder then []
      else (case listdir fs data_folder of
              Inl e \<Rightarrow> []
            | Inr folders \<Rightarrow> sort_reverse (foldl (scan_folder lower fs data_folder) [] folders)))"

section \<open>Notions used to state the properties of the extractor\<close>

text \<open>
  Names for what the extractor reads in a folder: the markdown files of a listing, in
  the order of the listing; what one markdown file leaves in \<open>content\<close> (its text, or
  the message of the failed read); the title it sets, if it sets one; and the files of
  the listing that set a title.
\<close>

definition md_files :: "str list \<Rightarrow> str list" where
  "md_files files = filter (\<lambda>file. endswith file (lit ''.md'')) files"

definition md_content :: "filesystem \<Rightarrow> str \<Rightarrow> str \<Rightarrow> str" where
  "md_content fs folder_path file =
     (case read_text fs (path_join folder_path file) of
        Inr content' \<Rightarrow> content'
      | Inl e \<Rightarrow> read_error_label @ e)"

definition md_title :: "filesystem \<Rightarrow> str \<Rightarrow> str \<Rightarrow> str option" where
  "md_title fs folder_path file =
     (case read_text fs (path_join folder_path file) of
        Inr content' \<Rightarrow> title_search content'
      | Inl e \<Rightarrow> None)"

definition titled_files :: "filesystem \<Rightarrow> str \<Rightarrow> str list \<Rightarrow> str list" where
  "titled_files fs folder_path files =
     filter (\<lambda>file. md_title fs folder_path file \<noteq> None) (md_files files)"

text \<open>Some \<open>#\<close> of the text is directly followed by a whitespace character.\<close>

fun hash_space :: "str \<Rightarrow> bool" where
  "hash_space [] = False"
| "hash_space [c] = False"
| "hash_space (c # d # s) = ((c = 35 \<and> isspace d) \<or> hash_space (d # s))"

section \<open>Image references\<close>

text \<open>
  \<open>image_pattern = r'!\[([^\]]*)\]\(([^)]+)\)'\<close> at the head of \<open>s\<close>: the two groups
  and the text after the match. Each class stops at the first character it excludes,
  which is the one the pattern requires next, so giving characters back never helps.
\<close>

definition image_match :: "str \<Rightarrow> (str \<times> str \<times> str) option" where
  "image_match s =
     (case s of
        c # d # s1 \<Rightarrow>
          if c = 33 \<and> d = 91 then
            (case dropWhile (\<lambda>x. x \<noteq> 93) s1 of
               e # f # s2 \<Rightarrow>
                 if e = 93 \<and> f = 40 then
                   (case dropWhile (\<lambda>x. x \<noteq> 41) s2 of
                      g # rest \<Rightarrow>
                        if takeWhile (\<lambda>x. x \<noteq> 41) s2 \<noteq> []
                        then Some (takeWhile (\<lambda>x. x \<noteq> 93) s1, takeWhile (\<lambda>x. x \<noteq> 41) s2, rest)
                        else None
                    | [] \<Rightarrow> None)
                 else None
             | _ \<Rightarrow> None)
          else None
      | _ \<Rightarrow> None)"

text \<open>\<open>replace_image\<close> on a match with groups \<open>alt\<close> and \<open>image_url\<close> (lines 129-135).\<close>

definition replace_image :: "str \<Rightarrow> str \<Rightarrow> str \<Rightarrow> str" where
  "replace_image instruction_id alt image_url =
     (if startswith image_url (lit ''http'')
      then lit ''!['' @ alt @ lit '']('' @ image_url @ lit '')''
      else lit ''!['' @ alt @ lit ''](/image/'' @ instruction_id @ lit ''/'' @ image_url @ lit '')'')"

text \<open>
  \<open>re.sub(image_pattern, replace_image, content)\<close> (line 139): the text is scanned from
  the left; a match is replaced and the scan goes on after it, any other character is
  copied. The pattern matches no empty string.
\<close>

function image_sub :: "str \<Rightarrow> str \<Rightarrow> str" where
  "image_sub instruction_id [] = []"
| "image_sub instruction_id (c # cs) =
     (case image_match (c # cs) of
        Some (alt, image_url, rest) \<Rightarrow>
          replace_image instruction_id alt image_url @ image_sub instruction_id rest
      | None \<Rightarrow> c # image_sub instruction_id cs)"
  by pat_completeness auto
termination
proof (relation "measure (\<lambda>(instruction_id, s). length s)")
  show "wf (measure (\<lambda>(instruction_id, s). length s))"
    by simp
next
  fix instruction_id :: str and c :: nat and cs :: str
  show "((instruction_id, cs), (instruction_id, c # cs)) \<in> measure (\<lambda>(instruction_id, s). length s)"
    by simp
next
  fix instruction_id :: str and c cs x2 alt y image_url rest
  assume m: "image_match (c # cs) = Some x2" and "(alt, y) = x2" and "(image_url, rest) = y"
  then have "image_match (c # cs) = Some (alt, image_url, rest)"
    by simp
  then obtain d s1 e f s2 g where s: "cs = d # s1"
    and d1: "dropWhile (\<lambda>x. x \<noteq> 93) s1 = e # f # s2"
    and d2: "dropWhile (\<lambda>x. x \<noteq> 41) s2 = g # rest"
    by (auto simp add: image_match_def split: list.splits if_splits)
  have "length (g # rest) \<le> length s2"
    using length_dropWhile_le [of "\<lambda>x. x \<noteq> 41" s2] by (simp only: d2)
  moreover have "length (e # f # s2) \<le> length s1"
    using length_dropWhile_le [of "\<lambda>x. x \<noteq> 93" s1] by (simp only: d1)
  ultimately have "length rest < length (c # cs)"
    by (simp add: s)
  then show "((instruction_id, rest), (instruction_id, c # cs)) \<in> measure (\<lambda>(instruction_id, s). length s)"
    by simp
qed

section \<open>Search\<close>

text \<open>
  \<open>search_in_instructions\<close> stores \<open>preview\<close> into the dictionaries of the list it is
  given and returns those same dictionaries, so the list holds references into a heap
  of documents and the function returns the result list with the heap it leaves behind.
\<close>

type_synonym ref = nat
type_synonym heap = "ref \<Rightarrow> document"

text \<open>
  The two labels of the previews: \<open><strong>\<close>, the Cyrillic word for ``name'', and
  \<open>:</strong>\<close> with a space; \<open><br><strong>\<close>, the Cyrillic word for ``context'',
  \<open>:</strong>\<close>, a space and three dots.
\<close>

definition name_label :: str where
  "name_label = lit ''<strong>'' @ [1053, 1072, 1079, 1074, 1072, 1085, 1080, 1077] @ lit '':</strong> ''"

definition context_label :: str where
  "context_label = lit ''<br><strong>'' @ [1050, 1086, 1085, 1090, 1077, 1082, 1089, 1090] @ lit '':</strong> ...''"

text \<open>The preview of a content hit, computed from the position of the hit (lines 188-202).\<close>

definition content_preview :: "(str \<Rightarrow> str) \<Rightarrow> document \<Rightarrow> str \<Rightarrow> int \<Rightarrow> str" where
  "content_preview lower instr query query_pos =
     (let content' = content instr;
          start = max 0 (query_pos - 100);
          end' = min (int (length content')) (query_pos + int (length query) + 100);
          preview0 = slice content' (Some start) (Some end');
          preview_lower = lower preview0;
          query_pos_in_preview = str_find preview_lower query;
          preview1 =
            (if query_pos_in_preview \<ge> 0 then
               (let before = slice preview0 None (Some query_pos_in_preview);
                    found = slice preview0 (Some query_pos_in_preview)
                              (Some (query_pos_in_preview + int (length query)));
                    after = slice preview0 (Some (query_pos_in_preview + int (length query))) None
                in before @ lit ''<mark>'' @ found @ lit ''</mark>'' @ after)
             else preview0)
      in name_label @ title instr @ context_label @ preview1 @ lit ''...'')"

text \<open>One iteration of the loop over \<open>instructions\<close>, on the dictionary at reference \<open>r\<close>.\<close>

definition search_item ::
  "(str \<Rightarrow> str) \<Rightarrow> str \<Rightarrow> str \<Rightarrow> str \<Rightarrow> ref list \<times> heap \<Rightarrow> ref \<Rightarrow> ref list \<times> heap" where
  "search_item lower query search_type search_mode st r =
     (let results = fst st; h = snd st; instr = h r;
          content_lower = lower (content instr);
          title_lower = lower (title instr)
      in
      if search_type = lit ''title'' then
        (if str_in query title_lower
         then (results @ [r], h(r := instr\<lparr>preview := Some (name_label @ title instr)\<rparr>))
         else (results, h))
      else if search_type = lit ''content'' then
        (if str_in query content_lower then
           (let query_pos = str_find content_lower query
            in (results @ [r],
                if query_pos \<ge> 0
                then h(r := instr\<lparr>preview := Some (content_preview lower instr query query_pos)\<rparr>)
                else h))
         else (results, h))
      else if search_type = lit ''advanced'' then
        (if search_mode = lit ''exact'' then
           (if str_in query content_lower \<or> str_in query title_lower
            then (results @ [r], h) else (results, h))
         else if search_mode = lit ''all'' then
           (let words = split query;
                content_search = list_all (\<lambda>word. str_in word content_lower) words;
                title_search = list_all (\<lambda>word. str_in word title_lower) words
            in if content_search \<or> title_search then (results @ [r], h) else (results, h))
         else
           (let words = split query;
                content_search = list_ex (\<lambda>word. str_in word content_lower) words;
                title_search = list_ex (\<lambda>word. str_in word title_lower) words
            in if content_search \<or> title_search then (results @ [r], h) else (results, h)))
      else (results, h))"

definition search_in_instructions ::
  "(str \<Rightarrow> str) \<Rightarrow> heap \<Rightarrow> ref list \<Rightarrow> str \<Rightarrow> str \<Rightarrow> str \<Rightarrow> ref list \<times> heap" where
  "search_in_instructions lower h instructions query search_type search_mode =
     (if query = [] then (instructions, h)
      else foldl (search_item lower (strip (lower query)) search_type search_mode)
             ([], h) instructions)"

text \<open>
  Whether the loop appends the dictionary \<open>instr\<close>: the conditions of the branches of
  \<open>search_item\<close>, without the previews.
\<close>

definition hit :: "(str \<Rightarrow> str) \<Rightarrow> str \<Rightarrow> str \<Rightarrow> str \<Rightarrow> document \<Rightarrow> bool" where
  "hit lower query search_type search_mode instr =
     (let content_lower = lower (content instr); title_lower = lower (title instr) in
      if search_type = lit ''title'' then str_in query title_lower
      else if search_type = lit ''content'' then str_in query content_lower
      else if search_type = lit ''advanced'' then
        (if search_mode = lit ''exact'' then str_in query content_lower \<or> str_in query title_lower
         else if search_mode = lit ''all'' then
           list_all (\<lambda>word. str_in word content_lower) (split query) \<or>
           list_all (\<lambda>word. str_in word title_lower) (split query)
         else
           list_ex (\<lambda>word. str_in word content_lower) (split query) \<or>
           list_ex (\<lambda>word. str_in word title_lower) (split query))
      else False)"

section \<open>Example data\<close>

text \<open>
  \<open>str.lower()\<close> on ASCII text, for the concrete evaluations below, and a heap of three
  documents at the references 10, 11 and 12.
\<close>

definition ascii_lower :: "str \<Rightarrow> str" where
  "ascii_lower s = map (\<lambda>c. if 65 \<le> c \<and> c \<le> 90 then c + 32 else c) s"

definition example_heap :: heap where
  "example_heap r =
     (if r = 10 then
        \<lparr>doc_id = lit ''a'', title = lit ''Foo'', content = lit ''bar text'', images = [],
         modified = 3, preview = None\<rparr>
      else if r = 11 then
        \<lparr>doc_id = lit ''b'', title = lit ''Notes'', content = lit ''a FOO and a Bar'', images = [],
         modified = 2, preview = None\<rparr>
      else
        \<lparr>doc_id = lit ''c'', title = lit ''foo bar'', content = lit ''nothing'', images = [],
         modified = 1, preview = None\<rparr>)"

text \<open>
  A data folder with six document folders and a plain file. The folder \<open>locked\<close> cannot
  be listed and the file of \<open>broken\<close> cannot be read; \<open>empty\<close> holds an empty
  markdown file, \<open>multi\<close> two markdown files of which only the first has a heading,
  and the file of \<open>inline\<close> has a \<open>#\<close> inside its first line. \<open>example_fs_single\<close> is
  the same disk with only the second markdown file in \<open>multi\<close>.
\<close>

definition example_fs :: filesystem where
  "example_fs =
     \<lparr>path_exists = (\<lambda>p. p \<in> set
        [lit ''data'', lit ''data/guide'', lit ''data/broken'', lit ''data/locked'',
         lit ''data/empty'', lit ''data/multi'', lit ''data/inline'', lit ''data/notes.txt'']),
      path_isdir = (\<lambda>p. p \<in> set
        [lit ''data'', lit ''data/guide'', lit ''data/broken'', lit ''data/locked'',
         lit ''data/empty'', lit ''data/multi'', lit ''data/inline'']),
      getmtime = (\<lambda>p.
        if p = lit ''data/guide'' then Inr 30
        else if p = lit ''data/broken'' then Inr 20
        else if p = lit ''data/locked'' then Inr 60
        else if p = lit ''data/empty'' then Inr 50
        else if p = lit ''data/multi'' then Inr 10
        else if p = lit ''data/inline'' then Inr 40
        else Inl (lit ''No such file or directory'')),
      listdir = (\<lambda>p.
        if p = lit ''data'' then
          Inr [lit ''guide'', lit ''broken'', lit ''locked'', lit ''empty'', lit ''notes.txt'',
               lit ''multi'', lit ''inline'']
        else if p = lit ''data/guide'' then Inr [lit ''guide.md'', lit ''pic.PNG'']
        else if p = lit ''data/broken'' then Inr [lit ''broken.md'']
        else if p = lit ''data/empty'' then Inr [lit ''empty.md'']
        else if p = lit ''data/multi'' then Inr [lit ''a.md'', lit ''b.md'']
        else if p = lit ''data/inline'' then Inr [lit ''inline.md'']
        else Inl (lit ''Permission denied'')),
      read_text = (\<lambda>p.
        if p = lit ''data/guide/guide.md'' then Inr (lit ''# Guide'' @ [10] @ lit ''Use it.'' @ [10])
        else if p = lit ''data/empty/empty.md'' then Inr []
        else if p = lit ''data/multi/a.md'' then Inr (lit ''# First'' @ [10])
        else if p = lit ''data/multi/b.md'' then Inr (lit ''plain text'')
        else if p = lit ''data/inline/inline.md'' then
          Inr (lit ''Use C# daily'' @ [10] @ lit ''# Guide'' @ [10])
        else Inl (lit ''Permission denied''))\<rparr>"

definition example_fs_single :: filesystem where
  "example_fs_single =
     example_fs\<lparr>listdir := (listdir example_fs)(lit ''data/multi'' := Inr [lit ''b.md''])\<rparr>"

section \<open>Evaluation rules\<close>

lemmas str_eval = lit_def ascii_lower_def split_def strip_def isspace_def str_in_def
  startswith_def endswith_def sublist_Cons_right suffix_to_prefix

lemmas fs_eval = example_fs_def example_fs_single_def scan_instructions_def scan_folder_def
  extract_instruction_info_def process_file_def path_join_def basename_def error_info_def
  sort_reverse_def title_match_at_def dot_plus_eol_def image_extensions_def
  read_error_label_def error_label_def Let_def

lemmas image_eval = image_match_def replace_image_def

section \<open>Properties of the search\<close>

lemma lit_distinct:
  "lit ''title'' \<noteq> lit ''content''" "lit ''title'' \<noteq> lit ''advanced''"
  "lit ''content'' \<noteq> lit ''advanced''" "lit ''exact'' \<noteq> lit ''all''"
  "lit ''exact'' \<noteq> lit ''any''" "lit ''all'' \<noteq> lit ''any''"
  by (simp_all add: lit_def)

lemma search_item_title_type:
  "st = lit ''title'' \<Longrightarrow> search_item lower q st sm (res, h) r =
     (if str_in q (lower (title (h r)))
      then (res @ [r], h(r := (h r)\<lparr>preview := Some (name_label @ title (h r))\<rparr>))
      else (res, h))"
  by (simp add: search_item_def Let_def)

lemma search_item_content_type:
  "st = lit ''content'' \<Longrightarrow> search_item lower q st sm (res, h) r =
     (if str_in q (lower (content (h r)))
      then (res @ [r],
            if str_find (lower (content (h r))) q \<ge> 0
            then h(r := (h r)\<lparr>preview := Some (content_preview lower (h r) q (str_find (lower (content (h r))) q))\<rparr>)
            else h)
      else (res, h))"
  by (simp add: search_item_def Let_def lit_distinct lit_distinct [symmetric])

lemma search_item_advanced:
  "st = lit ''advanced'' \<Longrightarrow> search_item lower q st sm (res, h) r =
     (if hit lower q st sm (h r) then (res @ [r], h) else (res, h))"
  by (simp add: search_item_def hit_def Let_def lit_distinct lit_distinct [symmetric])

lemma search_item_other:
  "st \<noteq> lit ''title'' \<Longrightarrow> st \<noteq> lit ''content'' \<Longrightarrow> st \<noteq> lit ''advanced'' \<Longrightarrow>
   search_item lower q st sm (res, h) r = (res, h)"
  by (simp add: search_item_def Let_def)



lemma search_item_results:
  "fst (search_item lower q st sm (res, h) r) = (if hit lower q st sm (h r) then res @ [r] else res)"
proof (cases "st = lit ''title''")
  case True
  then show ?thesis by (simp add: search_item_title_type hit_def)
next
  case nt: False
  show ?thesis
  proof (cases "st = lit ''content''")
    case True
    then show ?thesis by (simp add: search_item_content_type hit_def lit_distinct [symmetric])
  next
    case nc: False
    show ?thesis
    proof (cases "st = lit ''advanced''")
      case True
      then show ?thesis by (simp add: search_item_advanced)
    next
      case False
      with nt nc show ?thesis by (simp add: search_item_other hit_def)
    qed
  qed
qed

lemma search_item_fields:
  "title (snd (search_item lower q st sm (res, h) r) x) = title (h x) \<and>
   content (snd (search_item lower q st sm (res, h) r) x) = content (h x) \<and>
   doc_id (snd (search_item lower q st sm (res, h) r) x) = doc_id (h x) \<and>
   images (snd (search_item lower q st sm (res, h) r) x) = images (h x) \<and>
   modified (snd (search_item lower q st sm (res, h) r) x) = modified (h x)"
proof (cases "st = lit ''title''")
  case True
  then show ?thesis by (simp add: search_item_title_type)
next
  case nt: False
  show ?thesis
  proof (cases "st = lit ''content''")
    case True
    then show ?thesis by (simp add: search_item_content_type)
  next
    case nc: False
    show ?thesis
    proof (cases "st = lit ''advanced''")
      case True
      then show ?thesis by (simp add: search_item_advanced)
    next
      case False
      with nt nc show ?thesis by (simp add: search_item_other)
    qed
  qed
qed

lemma hit_cong:
  "title d = title d' \<Longrightarrow> content d = content d' \<Longrightarrow> hit lower q st sm d = hit lower q st sm d'"
  by (simp add: hit_def)

lemma search_loop_results:
  "fst (foldl (search_item lower q st sm) (res, h) rs) = res @ filter (\<lambda>r. hit lower q st sm (h r)) rs"
proof (induction rs arbitrary: res h)
  case Nil
  show ?case by simp
next
  case (Cons r rs)
  obtain res' h' where step: "search_item lower q st sm (res, h) r = (res', h')"
    by (cases "search_item lower q st sm (res, h) r")
  have res': "res' = (if hit lower q st sm (h r) then res @ [r] else res)"
    using search_item_results [of lower q st sm res h r] step by simp
  have same: "hit lower q st sm (h' x) = hit lower q st sm (h x)" for x
  proof (rule hit_cong)
    show "title (h' x) = title (h x)"
      using search_item_fields [of lower q st sm res h r x] step by simp
    show "content (h' x) = content (h x)"
      using search_item_fields [of lower q st sm res h r x] step by simp
  qed
  show ?case
    using Cons.IH [of res' h'] by (simp add: step res' same)
qed

lemma search_results:
  "query \<noteq> [] \<Longrightarrow>
   fst (search_in_instructions lower h instructions query st sm) =
     filter (\<lambda>r. hit lower (strip (lower query)) st sm (h r)) instructions"
  by (simp add: search_in_instructions_def search_loop_results)

lemma search_loop_fields:
  "title (snd (foldl (search_item lower q st sm) (res, h) rs) x) = title (h x) \<and>
   content (snd (foldl (search_item lower q st sm) (res, h) rs) x) = content (h x) \<and>
   doc_id (snd (foldl (search_item lower q st sm) (res, h) rs) x) = doc_id (h x) \<and>
   images (snd (foldl (search_item lower q st sm) (res, h) rs) x) = images (h x) \<and>
   modified (snd (foldl (search_item lower q st sm) (res, h) rs) x) = modified (h x)"
proof (induction rs arbitrary: res h)
  case Nil
  show ?case by simp
next
  case (Cons r rs)
  obtain res' h' where step: "search_item lower q st sm (res, h) r = (res', h')"
    by (cases "search_item lower q st sm (res, h) r")
  show ?case
    using Cons.IH [of res' h'] search_item_fields [of lower q st sm res h r x]
    by (simp add: step)
qed

lemma strip_all_space: "list_all isspace s \<Longrightarrow> strip s = []"
proof -
  assume "list_all isspace s"
  then have dw: "dropWhile isspace s = []"
    by (simp add: list_all_iff)
  show "strip s = []"
    by (simp only: strip_def dw rev.simps dropWhile.simps)
qed

lemma hit_all:
  "hit lower q (lit ''advanced'') (lit ''all'') d \<longleftrightarrow>
     list_all (\<lambda>word. str_in word (lower (content d))) (split q) \<or>
     list_all (\<lambda>word. str_in word (lower (title d))) (split q)"
  by (simp add: hit_def lit_distinct lit_distinct [symmetric])

lemma hit_any:
  "hit lower q (lit ''advanced'') (lit ''any'') d \<longleftrightarrow>
     list_ex (\<lambda>word. str_in word (lower (content d))) (split q) \<or>
     list_ex (\<lambda>word. str_in word (lower (title d))) (split q)"
  by (simp add: hit_def lit_distinct lit_distinct [symmetric])

lemma count_list_filter: "count_list (filter P xs) x \<le> count_list xs x"
  by (induction xs) simp_all

text \<open>
  C7. Searching with the empty query returns the list it was given, and leaves every
  document as it was, whatever the search type and mode.
\<close>

theorem search_empty_query:
  "search_in_instructions lower h instructions [] search_type search_mode = (instructions, h)"
  by (simp add: search_in_instructions_def)

text \<open>
  C6. With a non-empty query, the advanced search in mode \<open>all\<close> returns a document of
  the list exactly when every word of the query (lowered, stripped and split at
  whitespace) occurs in its lowered title, or every word occurs in its lowered content.
  The two fields are tested apart: words found partly in one and partly in the other
  give no match.
\<close>

theorem search_all_mode:
  "query \<noteq> [] \<Longrightarrow>
   r \<in> set (fst (search_in_instructions lower h instructions query (lit ''advanced'') (lit ''all'')))
     \<longleftrightarrow>
   r \<in> set instructions \<and>
     ((\<forall>word \<in> set (split (strip (lower query))). str_in word (lower (title (h r)))) \<or>
      (\<forall>word \<in> set (split (strip (lower query))). str_in word (lower (content (h r)))))"
  by (auto simp add: search_results hit_all list_all_iff)

text \<open>
  At the query \<open>Foo  bar\<close>, the document 10 has \<open>foo\<close> in its title only and \<open>bar\<close> in
  its content only and is not returned; the document 11 has both in its content.
\<close>

theorem search_all_mode_witness:
  "lit ''Foo  bar'' \<noteq> [] \<and>
   10 \<notin> set (fst (search_in_instructions ascii_lower example_heap [10, 11, 12] (lit ''Foo  bar'')
                  (lit ''advanced'') (lit ''all''))) \<and>
   11 \<in> set (fst (search_in_instructions ascii_lower example_heap [10, 11, 12] (lit ''Foo  bar'')
                  (lit ''advanced'') (lit ''all'')))"
proof -
  have q: "lit ''Foo  bar'' \<noteq> []"
    by (simp add: lit_def)
  have words: "split (strip (ascii_lower (lit ''Foo  bar''))) = [lit ''foo'', lit ''bar'']"
    by (simp add: str_eval)
  have t0: "ascii_lower (title (example_heap 10)) = lit ''foo''"
    and c0: "ascii_lower (content (example_heap 10)) = lit ''bar text''"
    and c1: "ascii_lower (content (example_heap 11)) = lit ''a foo and a bar''"
    by (simp_all add: str_eval example_heap_def)
  have no_bar: "\<not> str_in (lit ''bar'') (lit ''foo'')"
    and no_foo: "\<not> str_in (lit ''foo'') (lit ''bar text'')"
    and foo1: "str_in (lit ''foo'') (lit ''a foo and a bar'')"
    and bar1: "str_in (lit ''bar'') (lit ''a foo and a bar'')"
    by (simp_all add: str_eval)
  show ?thesis
    using q search_all_mode [OF q, of 10 ascii_lower example_heap "[10, 11, 12]"]
      search_all_mode [OF q, of 11 ascii_lower example_heap "[10, 11, 12]"]
    by (simp add: words t0 c0 c1 no_bar no_foo foo1 bar1)
qed

text \<open>
  C9, amended. The result of a search is a subsequence of the list it was given: it is
  that list filtered, so the references come from the list, in the order of the list,
  and none is returned more often than the list holds it. A list without repetition
  gives a result without repetition. The documents behind the references are those of
  the input, up to the preview the search attaches.
\<close>

theorem search_subseq:
  "subseq (fst (search_in_instructions lower h instructions query st sm)) instructions \<and>
   (\<exists>P. fst (search_in_instructions lower h instructions query st sm) = filter P instructions) \<and>
   (\<forall>r. count_list (fst (search_in_instructions lower h instructions query st sm)) r
        \<le> count_list instructions r) \<and>
   (distinct instructions \<longrightarrow>
      distinct (fst (search_in_instructions lower h instructions query st sm))) \<and>
   (\<forall>r. (snd (search_in_instructions lower h instructions query st sm) r)\<lparr>preview := None\<rparr>
        = (h r)\<lparr>preview := None\<rparr>)"
proof -
  obtain P where res: "fst (search_in_instructions lower h instructions query st sm) = filter P instructions"
  proof (cases "query = []")
    case True
    then have "fst (search_in_instructions lower h instructions query st sm) =
        filter (\<lambda>r. True) instructions"
      by (simp add: search_in_instructions_def)
    then show ?thesis by (rule that)
  next
    case False
    then have "fst (search_in_instructions lower h instructions query st sm) =
        filter (\<lambda>r. hit lower (strip (lower query)) st sm (h r)) instructions"
      by (rule search_results)
    then show ?thesis by (rule that)
  qed
  have ex: "\<exists>P. fst (search_in_instructions lower h instructions query st sm) = filter P instructions"
    using res by (rule exI [of _ P])
  have heap: "(snd (search_in_instructions lower h instructions query st sm) r)\<lparr>preview := None\<rparr>
        = (h r)\<lparr>preview := None\<rparr>" for r
    using search_loop_fields [of lower "strip (lower query)" st sm "[]" h instructions r]
    by (cases "query = []") (simp_all add: search_in_instructions_def document.equality)
  show ?thesis
    using ex heap by (simp add: res count_list_filter)
qed

theorem search_subseq_witness:
  "distinct [10, 11, 12 :: nat] \<and>
   distinct (fst (search_in_instructions ascii_lower example_heap [10, 11, 12] (lit ''OO'')
               (lit ''title'') (lit ''any'')))"
  using search_subseq [of ascii_lower example_heap "[10, 11, 12]" "lit ''OO''" "lit ''title''" "lit ''any''"]
  by simp

text \<open>
  C9 as stated fails: a list that holds a reference twice gives a result that holds it
  twice.
\<close>

theorem search_repeats_input:
  "fst (search_in_instructions ascii_lower example_heap [10, 10, 12, 11] (lit ''foo'')
          (lit ''title'') (lit ''any'')) = [10, 10, 12] \<and>
   \<not> distinct [10, 10, 12 :: nat]"
proof -
  have q: "lit ''foo'' \<noteq> []"
    by (simp add: lit_def)
  have s: "strip (ascii_lower (lit ''foo'')) = lit ''foo''"
    by (simp add: str_eval)
  have "filter (\<lambda>r. hit ascii_lower (lit ''foo'') (lit ''title'') (lit ''any'') (example_heap r))
          [10, 10, 12, 11] = [10, 10, 12]"
    by (simp add: hit_def example_heap_def str_eval)
  then show ?thesis
    by (simp add: search_results [OF q] s)
qed

text \<open>
  C10. A non-empty query made of whitespace only (which \<open>lower\<close> leaves made of
  whitespace) splits into no word: the advanced search returns the whole list in mode
  \<open>all\<close> and the empty list in mode \<open>any\<close>.
\<close>

theorem search_whitespace_query:
  assumes "query \<noteq> []" and "list_all isspace query" and "list_all isspace (lower query)"
  shows "fst (search_in_instructions lower h instructions query (lit ''advanced'') (lit ''all'')) = instructions \<and>
         fst (search_in_instructions lower h instructions query (lit ''advanced'') (lit ''any'')) = []"
proof -
  have "strip (lower query) = []"
    using assms(3) by (rule strip_all_space)
  then have "split (strip (lower query)) = []"
    by (simp add: split_def)
  then show ?thesis
    using assms(1) by (simp add: search_results hit_all hit_any)
qed

theorem search_whitespace_query_witness:
  "fst (search_in_instructions ascii_lower example_heap [10, 11, 12] (lit ''  '')
          (lit ''advanced'') (lit ''all'')) = [10, 11, 12] \<and>
   fst (search_in_instructions ascii_lower example_heap [10, 11, 12] (lit ''  '')
          (lit ''advanced'') (lit ''any'')) = []"
proof -
  have a: "lit ''  '' \<noteq> []"
    by (simp add: lit_def)
  have b: "list_all isspace (lit ''  '')"
    by (simp add: lit_def isspace_def)
  have c: "list_all isspace (ascii_lower (lit ''  ''))"
    by (simp add: lit_def isspace_def ascii_lower_def)
  show ?thesis
    using search_whitespace_query [where query = "lit ''  ''" and lower = ascii_lower, OF a b c] by simp
qed

section \<open>Properties of the extractor and the scanner\<close>

lemma process_file_content:
  "content (process_file lower fs p info file) =
     (if endswith file (lit ''.md'') then md_content fs p file else content info)"
  by (simp add: process_file_def md_content_def Let_def split: sum.splits option.splits)

lemma process_file_title:
  "title (process_file lower fs p info file) =
     (if endswith file (lit ''.md'') \<and> md_title fs p file \<noteq> None
      then the (md_title fs p file) else title info)"
  by (auto simp add: process_file_def md_title_def Let_def split: sum.splits option.splits)

lemma process_files_content:
  "content (foldl (process_file lower fs p) info files) =
     (if md_files files = [] then content info else md_content fs p (last (md_files files)))"
  by (induction files rule: rev_induct) (simp_all add: md_files_def process_file_content)

lemma process_files_title:
  "title (foldl (process_file lower fs p) info files) =
     (if titled_files fs p files = [] then title info
      else the (md_title fs p (last (titled_files fs p files))))"
  by (induction files rule: rev_induct)
     (simp_all add: titled_files_def md_files_def process_file_title)

lemma extract_listed:
  "path_exists fs p \<Longrightarrow> getmtime fs p = Inr m \<Longrightarrow> listdir fs p = Inr files \<Longrightarrow>
   extract_instruction_info lower fs p =
     foldl (process_file lower fs p)
       \<lparr>doc_id = basename p, title = basename p, content = [], images = [], modified = m,
        preview = None\<rparr> files"
  by (simp add: extract_instruction_info_def)

lemma extract_content_cases:
  "content (extract_instruction_info lower fs p) =
     (if path_exists fs p then
        (case getmtime fs p of
           Inl e \<Rightarrow> []
         | Inr m \<Rightarrow>
             (case listdir fs p of
                Inl e \<Rightarrow> []
              | Inr files \<Rightarrow>
                  if md_files files = [] then [] else md_content fs p (last (md_files files))))
      else [])"
  by (simp add: extract_instruction_info_def error_info_def process_files_content Let_def
      split: sum.splits)

lemma scan_loop:
  "foldl (scan_folder lower fs data_folder) acc folders =
     acc @ filter (\<lambda>info. content info \<noteq> [])
             (map (\<lambda>folder. extract_instruction_info lower fs (path_join data_folder folder))
                (filter (\<lambda>folder. path_isdir fs (path_join data_folder folder)) folders))"
  by (induction folders arbitrary: acc) (simp_all add: scan_folder_def Let_def)

lemma set_sort_reverse: "set (sort_reverse xs) = set xs"
  by (simp add: sort_reverse_def)

lemma sorted_sort_reverse: "sorted_wrt (\<lambda>a b. modified a \<ge> modified b) (sort_reverse xs)"
proof -
  have "sorted (map modified (sort_key modified (rev xs)))"
    by (rule sorted_sort_key)
  then have "sorted_wrt (\<lambda>a b. modified a \<le> modified b) (sort_key modified (rev xs))"
    by (simp add: sorted_map)
  then show ?thesis
    by (simp add: sort_reverse_def sorted_wrt_rev)
qed

lemma scan_set:
  "path_exists fs data_folder \<Longrightarrow> listdir fs data_folder = Inr folders \<Longrightarrow>
   set (scan_instructions lower fs data_folder) =
     {extract_instruction_info lower fs (path_join data_folder folder) | folder.
        folder \<in> set folders \<and> path_isdir fs (path_join data_folder folder) \<and>
        content (extract_instruction_info lower fs (path_join data_folder folder)) \<noteq> []}"
  by (auto simp add: scan_instructions_def set_sort_reverse scan_loop)

lemma scan_member:
  assumes "d \<in> set (scan_instructions lower fs data_folder)"
  shows "\<exists>folders folder. path_exists fs data_folder \<and> listdir fs data_folder = Inr folders \<and>
      folder \<in> set folders \<and> path_isdir fs (path_join data_folder folder) \<and>
      d = extract_instruction_info lower fs (path_join data_folder folder) \<and> content d \<noteq> []"
proof -
  have ex: "path_exists fs data_folder"
    using assms by (auto simp add: scan_instructions_def split: if_splits)
  obtain folders where l: "listdir fs data_folder = Inr folders"
    using assms ex by (cases "listdir fs data_folder") (simp_all add: scan_instructions_def)
  obtain folder where "folder \<in> set folders" "path_isdir fs (path_join data_folder folder)"
    "d = extract_instruction_info lower fs (path_join data_folder folder)" "content d \<noteq> []"
    using assms scan_set [OF ex l, of lower] by auto
  with ex l show ?thesis by blast
qed


lemma title_search_none: "\<not> hash_space s \<Longrightarrow> title_search s = None"
proof (induction s rule: hash_space.induct)
  case 1
  show ?case by simp
next
  case (2 v)
  show ?case by (simp add: title_match_at_def)
next
  case (3 c d s)
  then have "\<not> (c = 35 \<and> isspace d)" and rest: "title_search (d # s) = None"
    by simp_all
  then have "title_match_at (c # d # s) = None"
    by (auto simp add: title_match_at_def)
  with rest show ?case by simp
qed

lemma title_match_heading:
  assumes "ws \<noteq> []" and "list_all isspace ws" and "t \<noteq> []" and "\<not> isspace (hd t)"
    and "10 \<notin> set t" and "rest = [] \<or> hd rest = 10"
  shows "title_match_at (35 # ws @ t @ rest) = Some t"
proof -
  obtain a t' where t: "t = a # t'"
    using assms(3) by (cases t) auto
  have tr: "takeWhile isspace (t @ rest) = []"
    using assms(4) by (simp add: t)
  have "takeWhile isspace (ws @ t @ rest) = ws @ takeWhile isspace (t @ rest)"
    using assms(2) by (intro takeWhile_append2) (simp add: list_all_iff)
  then have tw: "takeWhile isspace (ws @ t @ rest) = ws"
    by (simp only: tr append_Nil2)
  obtain k where k: "length ws = Suc k"
    using assms(1) by (cases ws) auto
  have r: "takeWhile (\<lambda>c. c \<noteq> 10) rest = []"
    using assms(6) by (cases rest) auto
  have "takeWhile (\<lambda>c. c \<noteq> 10) (t @ rest) = t @ takeWhile (\<lambda>c. c \<noteq> 10) rest"
    using assms(5) by (intro takeWhile_append2) auto
  then have "takeWhile (\<lambda>c. c \<noteq> 10) (t @ rest) = t"
    by (simp only: r append_Nil2)
  then have "dot_plus_eol (t @ rest) = Some t"
    using assms(3) by (simp add: dot_plus_eol_def)
  then have "ws_backtrack (Suc k) (ws @ t @ rest) = Some t"
    using k by simp
  then show ?thesis
    by (simp add: title_match_at_def tw k)
qed

lemma title_search_skip:
  assumes "\<not> hash_space pre" and "title_match_at (35 # s) = Some t"
  shows "title_search (pre @ 35 # s) = Some t"
  using assms(1)
proof (induction pre rule: hash_space.induct)
  case 1
  show ?case using assms(2) by simp
next
  case (2 v)
  have "\<not> isspace 35" by (simp add: isspace_def)
  then have "title_match_at ([v] @ 35 # s) = None"
    by (simp add: title_match_at_def)
  then show ?case using assms(2) by simp
next
  case (3 c d s')
  then have nm: "\<not> (c = 35 \<and> isspace d)" and rest: "title_search ((d # s') @ 35 # s) = Some t"
    by simp_all
  from nm have "title_match_at (c # (d # s') @ 35 # s) = None"
    by (auto simp add: title_match_at_def)
  with rest show ?case by simp
qed

lemma title_search_heading:
  assumes "\<not> hash_space pre" and "ws \<noteq> []" and "list_all isspace ws" and "t \<noteq> []"
    and "\<not> isspace (hd t)" and "10 \<notin> set t" and "rest = [] \<or> hd rest = 10"
  shows "title_search (pre @ 35 # ws @ t @ rest) = Some t"
  using assms(1) title_match_heading [OF assms(2-7)] by (rule title_search_skip)

lemma extract_single_title:
  assumes "path_exists fs p" and "getmtime fs p = Inr m" and "listdir fs p = Inr files"
    and "md_files files = [file]" and "read_text fs (path_join p file) = Inr text"
  shows "title (extract_instruction_info lower fs p) =
           (case title_search text of Some g \<Rightarrow> g | None \<Rightarrow> basename p)"
  using assms
  by (simp add: extract_listed process_files_title titled_files_def md_title_def
      split: option.splits)

lemma read_error_label_nonempty: "read_error_label @ e \<noteq> []"
  by (simp add: read_error_label_def)

lemma md_content_empty:
  "md_content fs p file = [] \<longleftrightarrow> read_text fs (path_join p file) = Inr []"
  by (cases "read_text fs (path_join p file)") (simp_all add: md_content_def read_error_label_def)

lemma extract_content_listed:
  "path_exists fs p \<Longrightarrow> getmtime fs p = Inr m \<Longrightarrow> listdir fs p = Inr files \<Longrightarrow>
   content (extract_instruction_info lower fs p) =
     (if md_files files = [] then [] else md_content fs p (last (md_files files)))"
  by (simp add: extract_content_cases)

lemma scan_listed_member:
  assumes "path_exists fs data_folder" and "listdir fs data_folder = Inr folders"
    and "folder \<in> set folders" and "path_isdir fs (path_join data_folder folder)"
  shows "extract_instruction_info lower fs (path_join data_folder folder)
           \<in> set (scan_instructions lower fs data_folder) \<longleftrightarrow>
         content (extract_instruction_info lower fs (path_join data_folder folder)) \<noteq> []"
proof
  assume "extract_instruction_info lower fs (path_join data_folder folder)
           \<in> set (scan_instructions lower fs data_folder)"
  then show "content (extract_instruction_info lower fs (path_join data_folder folder)) \<noteq> []"
    using scan_member by blast
next
  assume "content (extract_instruction_info lower fs (path_join data_folder folder)) \<noteq> []"
  then show "extract_instruction_info lower fs (path_join data_folder folder)
           \<in> set (scan_instructions lower fs data_folder)"
    using assms scan_set [OF assms(1,2), of lower] by blast
qed

lemma example_scan_list:
  "scan_instructions ascii_lower example_fs (lit ''data'') =
     [extract_instruction_info ascii_lower example_fs (lit ''data/inline''),
      extract_instruction_info ascii_lower example_fs (lit ''data/guide''),
      extract_instruction_info ascii_lower example_fs (lit ''data/broken''),
      extract_instruction_info ascii_lower example_fs (lit ''data/multi'')]"
  by (simp add: fs_eval str_eval)

text \<open>
  C8. The list returned by the scanner is in descending order of modification time.
\<close>

theorem scan_sorted:
  "sorted_wrt (\<lambda>a b. modified a \<ge> modified b) (scan_instructions lower fs data_folder)"
  by (simp add: scan_instructions_def sorted_sort_reverse split: sum.splits)

text \<open>
  C1, amended. Every document of the scanner's output has non-empty content, and that
  content comes from a markdown file of its folder: it is the text read from the file,
  or, when the file cannot be read, the message of the failed read. A folder that has
  no markdown file, or whose last markdown file is read as the empty text, is not in
  the output. For a listed directory that can be read, the document is in the output
  exactly when the folder has a markdown file and the last one is not read as the empty
  text; in particular, when the last markdown file cannot be read, the document is in
  the output, with the message of the failed read as its content.
\<close>

theorem scan_content_nonempty:
  "(\<forall>d \<in> set (scan_instructions lower fs data_folder).
      content d \<noteq> [] \<and>
      (\<exists>folder files file.
         d = extract_instruction_info lower fs (path_join data_folder folder) \<and>
         listdir fs (path_join data_folder folder) = Inr files \<and>
         file \<in> set files \<and> endswith file (lit ''.md'') \<and>
         (read_text fs (path_join (path_join data_folder folder) file) = Inr (content d) \<or>
          (\<exists>e. read_text fs (path_join (path_join data_folder folder) file) = Inl e \<and>
               content d = read_error_label @ e)))) \<and>
   (\<forall>folder files.
      listdir fs (path_join data_folder folder) = Inr files \<and>
      (md_files files = [] \<or>
       read_text fs (path_join (path_join data_folder folder) (last (md_files files))) = Inr [])
      \<longrightarrow>
      extract_instruction_info lower fs (path_join data_folder folder)
        \<notin> set (scan_instructions lower fs data_folder)) \<and>
   (\<forall>folders folder m files.
      path_exists fs data_folder \<and> listdir fs data_folder = Inr folders \<and>
      folder \<in> set folders \<and> path_isdir fs (path_join data_folder folder) \<and>
      path_exists fs (path_join data_folder folder) \<and>
      getmtime fs (path_join data_folder folder) = Inr m \<and>
      listdir fs (path_join data_folder folder) = Inr files
      \<longrightarrow>
      (extract_instruction_info lower fs (path_join data_folder folder)
         \<in> set (scan_instructions lower fs data_folder) \<longleftrightarrow>
       md_files files \<noteq> [] \<and>
       read_text fs (path_join (path_join data_folder folder) (last (md_files files))) \<noteq> Inr []) \<and>
      (\<forall>e. md_files files \<noteq> [] \<and>
           read_text fs (path_join (path_join data_folder folder) (last (md_files files))) = Inl e
           \<longrightarrow>
           extract_instruction_info lower fs (path_join data_folder folder)
             \<in> set (scan_instructions lower fs data_folder) \<and>
           content (extract_instruction_info lower fs (path_join data_folder folder)) =
             read_error_label @ e))"
proof (intro conjI ballI allI impI)
  fix d
  assume "d \<in> set (scan_instructions lower fs data_folder)"
  then obtain folder where d: "d = extract_instruction_info lower fs (path_join data_folder folder)"
    and ne: "content d \<noteq> []"
    using scan_member by blast
  show "content d \<noteq> []" by (rule ne)
  let ?p = "path_join data_folder folder"
  from ne obtain m files where l: "listdir fs ?p = Inr files" and md: "md_files files \<noteq> []"
    and c: "content d = md_content fs ?p (last (md_files files))"
    unfolding d extract_content_cases by (auto split: if_splits sum.splits)
  let ?file = "last (md_files files)"
  have "?file \<in> set (md_files files)"
    using md by (rule last_in_set)
  then have mem: "?file \<in> set files" and suf: "endswith ?file (lit ''.md'')"
    by (simp_all add: md_files_def)
  have "read_text fs (path_join ?p ?file) = Inr (content d) \<or>
        (\<exists>e. read_text fs (path_join ?p ?file) = Inl e \<and> content d = read_error_label @ e)"
    unfolding c md_content_def by (cases "read_text fs (path_join ?p ?file)") simp_all
  with d l mem suf
  show "\<exists>folder files file.
         d = extract_instruction_info lower fs (path_join data_folder folder) \<and>
         listdir fs (path_join data_folder folder) = Inr files \<and>
         file \<in> set files \<and> endswith file (lit ''.md'') \<and>
         (read_text fs (path_join (path_join data_folder folder) file) = Inr (content d) \<or>
          (\<exists>e. read_text fs (path_join (path_join data_folder folder) file) = Inl e \<and>
               content d = read_error_label @ e))"
    by blast
next
  fix folder files
  let ?p = "path_join data_folder folder"
  assume a: "listdir fs ?p = Inr files \<and>
      (md_files files = [] \<or> read_text fs (path_join ?p (last (md_files files))) = Inr [])"
  then have "content (extract_instruction_info lower fs ?p) = []"
    unfolding extract_content_cases by (auto simp add: md_content_def split: sum.splits)
  then show "extract_instruction_info lower fs ?p \<notin> set (scan_instructions lower fs data_folder)"
    using scan_member by blast
next
  fix folders folder m files
  let ?p = "path_join data_folder folder"
  assume a: "path_exists fs data_folder \<and> listdir fs data_folder = Inr folders \<and>
      folder \<in> set folders \<and> path_isdir fs ?p \<and> path_exists fs ?p \<and>
      getmtime fs ?p = Inr m \<and> listdir fs ?p = Inr files"
  from a have a1: "path_exists fs data_folder" and a2: "listdir fs data_folder = Inr folders"
    and a3: "folder \<in> set folders" and a4: "path_isdir fs ?p" and a5: "path_exists fs ?p"
    and a6: "getmtime fs ?p = Inr m" and a7: "listdir fs ?p = Inr files"
    by blast+
  have c: "content (extract_instruction_info lower fs ?p) =
      (if md_files files = [] then [] else md_content fs ?p (last (md_files files)))"
    using a5 a6 a7 by (rule extract_content_listed)
  have mem: "extract_instruction_info lower fs ?p \<in> set (scan_instructions lower fs data_folder) \<longleftrightarrow>
      content (extract_instruction_info lower fs ?p) \<noteq> []"
    using a1 a2 a3 a4 by (rule scan_listed_member)
  show "extract_instruction_info lower fs ?p \<in> set (scan_instructions lower fs data_folder) \<longleftrightarrow>
       md_files files \<noteq> [] \<and> read_text fs (path_join ?p (last (md_files files))) \<noteq> Inr []"
    unfolding mem c by (simp add: md_content_empty)
  fix e
  assume b: "md_files files \<noteq> [] \<and> read_text fs (path_join ?p (last (md_files files))) = Inl e"
  then show ce: "content (extract_instruction_info lower fs ?p) = read_error_label @ e"
    unfolding c by (simp add: md_content_def)
  show "extract_instruction_info lower fs ?p \<in> set (scan_instructions lower fs data_folder)"
    unfolding mem ce by (rule read_error_label_nonempty)
qed

theorem scan_content_nonempty_witness:
  "extract_instruction_info ascii_lower example_fs (path_join (lit ''data'') (lit ''guide''))
     \<in> set (scan_instructions ascii_lower example_fs (lit ''data'')) \<and>
   content (extract_instruction_info ascii_lower example_fs (path_join (lit ''data'') (lit ''guide''))) \<noteq> [] \<and>
   listdir example_fs (path_join (lit ''data'') (lit ''empty'')) = Inr [lit ''empty.md''] \<and>
   read_text example_fs (path_join (path_join (lit ''data'') (lit ''empty'')) (last (md_files [lit ''empty.md'']))) = Inr [] \<and>
   extract_instruction_info ascii_lower example_fs (path_join (lit ''data'') (lit ''empty''))
     \<notin> set (scan_instructions ascii_lower example_fs (lit ''data'')) \<and>
   read_text example_fs (path_join (path_join (lit ''data'') (lit ''broken'')) (last (md_files [lit ''broken.md''])))
     = Inl (lit ''Permission denied'') \<and>
   extract_instruction_info ascii_lower example_fs (path_join (lit ''data'') (lit ''broken''))
     \<in> set (scan_instructions ascii_lower example_fs (lit ''data'')) \<and>
   content (extract_instruction_info ascii_lower example_fs (path_join (lit ''data'') (lit ''broken''))) =
     read_error_label @ lit ''Permission denied''"
proof -
  note all = scan_content_nonempty [of ascii_lower example_fs "lit ''data''"]
  have listed: "path_exists example_fs (lit ''data'') \<and>
      listdir example_fs (lit ''data'') =
        Inr [lit ''guide'', lit ''broken'', lit ''locked'', lit ''empty'', lit ''notes.txt'',
             lit ''multi'', lit ''inline''] \<and>
      lit ''guide'' \<in> set [lit ''guide'', lit ''broken'', lit ''locked'', lit ''empty'', lit ''notes.txt'',
             lit ''multi'', lit ''inline''] \<and>
      path_isdir example_fs (path_join (lit ''data'') (lit ''guide'')) \<and>
      path_exists example_fs (path_join (lit ''data'') (lit ''guide'')) \<and>
      getmtime example_fs (path_join (lit ''data'') (lit ''guide'')) = Inr 30 \<and>
      listdir example_fs (path_join (lit ''data'') (lit ''guide'')) = Inr [lit ''guide.md'', lit ''pic.PNG'']"
    by (simp add: fs_eval str_eval)
  have readable: "md_files [lit ''guide.md'', lit ''pic.PNG''] \<noteq> [] \<and>
      read_text example_fs (path_join (path_join (lit ''data'') (lit ''guide''))
        (last (md_files [lit ''guide.md'', lit ''pic.PNG'']))) \<noteq> Inr []"
    by (simp add: fs_eval str_eval md_files_def)
  have mem: "extract_instruction_info ascii_lower example_fs (path_join (lit ''data'') (lit ''guide''))
     \<in> set (scan_instructions ascii_lower example_fs (lit ''data''))"
    using all [THEN conjunct2, THEN conjunct2, rule_format, OF listed, THEN conjunct1] readable
    by (rule iffD2)
  have ne: "content (extract_instruction_info ascii_lower example_fs (path_join (lit ''data'') (lit ''guide''))) \<noteq> []"
    using all [THEN conjunct1, rule_format, OF mem] by (rule conjunct1)
  have l: "listdir example_fs (path_join (lit ''data'') (lit ''empty'')) = Inr [lit ''empty.md'']"
    by (simp add: fs_eval str_eval)
  have r: "read_text example_fs (path_join (path_join (lit ''data'') (lit ''empty'')) (last (md_files [lit ''empty.md'']))) = Inr []"
    by (simp add: fs_eval str_eval md_files_def)
  have out: "extract_instruction_info ascii_lower example_fs (path_join (lit ''data'') (lit ''empty''))
     \<notin> set (scan_instructions ascii_lower example_fs (lit ''data''))"
    using all [THEN conjunct2, THEN conjunct1, rule_format, of "lit ''empty''" "[lit ''empty.md'']"] l r
    by blast
  have listed_b: "path_exists example_fs (lit ''data'') \<and>
      listdir example_fs (lit ''data'') =
        Inr [lit ''guide'', lit ''broken'', lit ''locked'', lit ''empty'', lit ''notes.txt'',
             lit ''multi'', lit ''inline''] \<and>
      lit ''broken'' \<in> set [lit ''guide'', lit ''broken'', lit ''locked'', lit ''empty'', lit ''notes.txt'',
             lit ''multi'', lit ''inline''] \<and>
      path_isdir example_fs (path_join (lit ''data'') (lit ''broken'')) \<and>
      path_exists example_fs (path_join (lit ''data'') (lit ''broken'')) \<and>
      getmtime example_fs (path_join (lit ''data'') (lit ''broken'')) = Inr 20 \<and>
      listdir example_fs (path_join (lit ''data'') (lit ''broken'')) = Inr [lit ''broken.md'']"
    by (simp add: fs_eval str_eval)
  have unreadable: "md_files [lit ''broken.md''] \<noteq> [] \<and>
      read_text example_fs (path_join (path_join (lit ''data'') (lit ''broken''))
        (last (md_files [lit ''broken.md'']))) = Inl (lit ''Permission denied'')"
    by (simp add: fs_eval str_eval md_files_def)
  have broken: "extract_instruction_info ascii_lower example_fs (path_join (lit ''data'') (lit ''broken''))
       \<in> set (scan_instructions ascii_lower example_fs (lit ''data'')) \<and>
     content (extract_instruction_info ascii_lower example_fs (path_join (lit ''data'') (lit ''broken''))) =
       read_error_label @ lit ''Permission denied''"
    using all [THEN conjunct2, THEN conjunct2, rule_format, OF listed_b, THEN conjunct2, rule_format,
        OF unreadable] .
  show ?thesis
    using mem ne l r out unreadable broken by blast
qed

text \<open>
  C1 as stated fails: the markdown file of the folder \<open>broken\<close> cannot be read, and the
  folder is in the output, with the message of the failed read as its content.
\<close>

theorem unreadable_markdown_listed:
  "listdir example_fs (lit ''data/broken'') = Inr [lit ''broken.md''] \<and>
   read_text example_fs (lit ''data/broken/broken.md'') = Inl (lit ''Permission denied'') \<and>
   (lit ''broken'', read_error_label @ lit ''Permission denied'')
     \<in> set (map (\<lambda>d. (doc_id d, content d)) (scan_instructions ascii_lower example_fs (lit ''data'')))"
  by (simp add: fs_eval str_eval)




text \<open>
  Where the code gives the heading. In a folder with one markdown file: when the text
  has a \<open>#\<close>, then whitespace, then a non-empty text \<open>t\<close> that does not begin with
  whitespace and runs to the end of its line, and no \<open>#\<close> before it is directly
  followed by whitespace, the title is exactly \<open>t\<close>; when no \<open>#\<close> of the text is directly
  followed by whitespace, the title is the folder's base name.
\<close>

lemma extract_title_heading:
  assumes "path_exists fs p" and "getmtime fs p = Inr m" and "listdir fs p = Inr files"
    and "md_files files = [file]" and "read_text fs (path_join p file) = Inr text"
  shows "(\<forall>pre ws t rest.
            text = pre @ 35 # ws @ t @ rest \<and> \<not> hash_space pre \<and>
            ws \<noteq> [] \<and> list_all isspace ws \<and>
            t \<noteq> [] \<and> \<not> isspace (hd t) \<and> 10 \<notin> set t \<and> (rest = [] \<or> hd rest = 10) \<longrightarrow>
            title (extract_instruction_info lower fs p) = t) \<and>
         (\<not> hash_space text \<longrightarrow> title (extract_instruction_info lower fs p) = basename p)"
proof (intro conjI allI impI)
  fix pre ws t rest
  assume "text = pre @ 35 # ws @ t @ rest \<and> \<not> hash_space pre \<and>
            ws \<noteq> [] \<and> list_all isspace ws \<and>
            t \<noteq> [] \<and> \<not> isspace (hd t) \<and> 10 \<notin> set t \<and> (rest = [] \<or> hd rest = 10)"
  then have "title_search text = Some t"
    using title_search_heading [of pre ws t rest] by simp
  then show "title (extract_instruction_info lower fs p) = t"
    using extract_single_title [OF assms, of lower] by simp
next
  assume "\<not> hash_space text"
  then have "title_search text = None"
    by (rule title_search_none)
  then show "title (extract_instruction_info lower fs p) = basename p"
    using extract_single_title [OF assms, of lower] by simp
qed

lemma extract_title_heading_example:
  "title (extract_instruction_info ascii_lower example_fs (lit ''data/guide'')) = lit ''Guide'' \<and>
   title (extract_instruction_info ascii_lower example_fs_single (lit ''data/multi'')) = lit ''multi''"
proof -
  have g: "path_exists example_fs (lit ''data/guide'')"
    "getmtime example_fs (lit ''data/guide'') = Inr 30"
    "listdir example_fs (lit ''data/guide'') = Inr [lit ''guide.md'', lit ''pic.PNG'']"
    "md_files [lit ''guide.md'', lit ''pic.PNG''] = [lit ''guide.md'']"
    "read_text example_fs (path_join (lit ''data/guide'') (lit ''guide.md'')) =
       Inr (lit ''# Guide'' @ [10] @ lit ''Use it.'' @ [10])"
    by (simp_all add: fs_eval str_eval md_files_def)
  have shape: "lit ''# Guide'' @ [10] @ lit ''Use it.'' @ [10] =
      [] @ 35 # [32] @ lit ''Guide'' @ (10 # lit ''Use it.'' @ [10]) \<and> \<not> hash_space [] \<and>
      [32] \<noteq> [] \<and> list_all isspace [32] \<and> lit ''Guide'' \<noteq> [] \<and>
      \<not> isspace (hd (lit ''Guide'')) \<and> 10 \<notin> set (lit ''Guide'') \<and>
      (10 # lit ''Use it.'' @ [10] = [] \<or> hd (10 # lit ''Use it.'' @ [10]) = 10)"
    by (simp add: str_eval)
  have m: "path_exists example_fs_single (lit ''data/multi'')"
    "getmtime example_fs_single (lit ''data/multi'') = Inr 10"
    "listdir example_fs_single (lit ''data/multi'') = Inr [lit ''b.md'']"
    "md_files [lit ''b.md''] = [lit ''b.md'']"
    "read_text example_fs_single (path_join (lit ''data/multi'') (lit ''b.md'')) =
       Inr (lit ''plain text'')"
    by (simp_all add: fs_eval str_eval md_files_def)
  have plain: "\<not> hash_space (lit ''plain text'')"
    by (simp add: str_eval)
  have b: "basename (lit ''data/multi'') = lit ''multi''"
    by (simp add: basename_def lit_def)
  show ?thesis
    using extract_title_heading [OF g, of ascii_lower] shape
      extract_title_heading [OF m, of ascii_lower] plain b
    by metis
qed

text \<open>
  C3. The title is to be the capture of the first line that begins with \<open>#\<close> and a
  space, and the folder's base name when the file has no such line. The code does
  otherwise: the pattern has no anchor at the beginning of a line. The first line of the
  file of \<open>inline\<close> has a \<open>#\<close> followed by a space in its middle, and the title is the
  rest of that line, not the heading \<open>Guide\<close> of the second line; on a text with no line
  that begins with \<open>#\<close> the search still finds a title, where the folder's base name
  is due.
\<close>

theorem heading_pattern_unanchored:
  "listdir example_fs (lit ''data/inline'') = Inr [lit ''inline.md''] \<and>
   read_text example_fs (lit ''data/inline/inline.md'') =
     Inr (lit ''Use C# daily'' @ [10] @ lit ''# Guide'' @ [10]) \<and>
   title (extract_instruction_info ascii_lower example_fs (lit ''data/inline'')) = lit ''daily'' \<and>
   lit ''daily'' \<noteq> lit ''Guide'' \<and>
   title_search (lit ''Use C# daily'') = Some (lit ''daily'')"
  by (simp add: fs_eval str_eval)

text \<open>
  C4, amended. The content of the document is that of the last markdown file of the
  listing (its text, or the message of the failed read). The title is the one set by
  the last markdown file that could be read and has a heading, and the folder's base
  name when there is none: a later markdown file without a heading keeps the title of an
  earlier one.
\<close>

theorem extract_last_markdown:
  assumes "path_exists fs p" and "getmtime fs p = Inr m" and "listdir fs p = Inr files"
  shows "content (extract_instruction_info lower fs p) =
           (if md_files files = [] then []
            else (case read_text fs (path_join p (last (md_files files))) of
                    Inr text \<Rightarrow> text
                  | Inl e \<Rightarrow> read_error_label @ e)) \<and>
         title (extract_instruction_info lower fs p) =
           (if titled_files fs p files = [] then basename p
            else the (md_title fs p (last (titled_files fs p files))))"
  using assms
  by (simp add: extract_listed process_files_title process_files_content md_content_def)

theorem extract_last_markdown_witness:
  "content (extract_instruction_info ascii_lower example_fs (lit ''data/multi'')) = lit ''plain text'' \<and>
   title (extract_instruction_info ascii_lower example_fs (lit ''data/multi'')) = lit ''First''"
proof -
  have m: "path_exists example_fs (lit ''data/multi'')"
    "getmtime example_fs (lit ''data/multi'') = Inr 10"
    "listdir example_fs (lit ''data/multi'') = Inr [lit ''a.md'', lit ''b.md'']"
    by (simp_all add: fs_eval str_eval)
  have files: "md_files [lit ''a.md'', lit ''b.md''] = [lit ''a.md'', lit ''b.md'']"
    by (simp add: md_files_def str_eval)
  have r: "read_text example_fs (path_join (lit ''data/multi'') (lit ''b.md'')) = Inr (lit ''plain text'')"
    by (simp add: fs_eval str_eval)
  have t: "titled_files example_fs (lit ''data/multi'') [lit ''a.md'', lit ''b.md''] = [lit ''a.md'']"
    by (simp add: titled_files_def md_title_def md_files_def fs_eval str_eval)
  have ta: "md_title example_fs (lit ''data/multi'') (lit ''a.md'') = Some (lit ''First'')"
    by (simp add: md_title_def fs_eval str_eval)
  show ?thesis
    using extract_last_markdown [OF m, of ascii_lower] by (simp add: files r t ta)
qed

text \<open>
  C4 as stated fails for the title: the two disks agree on the last markdown file of the
  folder \<open>multi\<close>, and the titles differ.
\<close>

theorem title_from_earlier_markdown:
  "last (md_files [lit ''a.md'', lit ''b.md'']) = lit ''b.md'' \<and>
   last (md_files [lit ''b.md'']) = lit ''b.md'' \<and>
   listdir example_fs (lit ''data/multi'') = Inr [lit ''a.md'', lit ''b.md''] \<and>
   listdir example_fs_single (lit ''data/multi'') = Inr [lit ''b.md''] \<and>
   read_text example_fs (lit ''data/multi/b.md'') = Inr (lit ''plain text'') \<and>
   read_text example_fs_single (lit ''data/multi/b.md'') = Inr (lit ''plain text'') \<and>
   title (extract_instruction_info ascii_lower example_fs (lit ''data/multi'')) = lit ''First'' \<and>
   title (extract_instruction_info ascii_lower example_fs_single (lit ''data/multi'')) = lit ''multi'' \<and>
   lit ''First'' \<noteq> lit ''multi''"
  by (simp add: fs_eval str_eval md_files_def)

section \<open>Properties of the image rewrite\<close>

lemma image_match_reference:
  assumes "93 \<notin> set alt" and "target \<noteq> []" and "41 \<notin> set target"
  shows "image_match (33 # 91 # alt @ 93 # 40 # target @ 41 # post) = Some (alt, target, post)"
proof -
  have a1: "takeWhile (\<lambda>x. x \<noteq> 93) (alt @ 93 # 40 # target @ 41 # post) = alt"
    using assms(1) by (auto simp add: takeWhile_tail)
  have a2: "dropWhile (\<lambda>x. x \<noteq> 93) (alt @ 93 # 40 # target @ 41 # post) = 93 # 40 # target @ 41 # post"
    using assms(1) by (subst dropWhile_append2) auto
  have t1: "takeWhile (\<lambda>x. x \<noteq> 41) (target @ 41 # post) = target"
    using assms(3) by (auto simp add: takeWhile_tail)
  have t2: "dropWhile (\<lambda>x. x \<noteq> 41) (target @ 41 # post) = 41 # post"
    using assms(3) by (subst dropWhile_append2) auto
  show ?thesis
    using assms(2) by (simp add: image_match_def a1 a2 t1 t2)
qed

lemma image_match_none:
  "\<not> prefix [33, 91] s \<Longrightarrow> image_match s = None"
  by (auto simp add: image_match_def split: list.splits)

lemma image_sub_plain: "\<not> sublist [33, 91] s \<Longrightarrow> image_sub d s = s"
proof (induction s)
  case Nil
  show ?case by simp
next
  case (Cons c cs)
  then have "\<not> prefix [33, 91] (c # cs)" and "\<not> sublist [33, 91] cs"
    by (simp_all add: sublist_Cons_right)
  then show ?case
    using Cons.IH by (simp add: image_match_none)
qed

lemma image_sub_skip:
  assumes "\<not> sublist [33, 91] pre" and "image_match (33 # s) = Some (alt, target, rest)"
  shows "image_sub d (pre @ 33 # s) = pre @ replace_image d alt target @ image_sub d rest"
  using assms(1)
proof (induction pre)
  case Nil
  show ?case using assms(2) by simp
next
  case (Cons c pre)
  then have np: "\<not> prefix [33, 91] (c # pre)" and ns: "\<not> sublist [33, 91] pre"
    by (simp_all add: sublist_Cons_right)
  have "\<not> prefix [33, 91] (c # pre @ 33 # s)"
    using np by (cases pre) auto
  then have "image_match (c # pre @ 33 # s) = None"
    by (rule image_match_none)
  then show ?case
    using Cons.IH [OF ns] by simp
qed

lemma image_sub_unmatched:
  "\<forall>i<length s. image_match (drop i s) = None \<Longrightarrow> image_sub d s = s"
proof (induction s)
  case Nil
  show ?case by simp
next
  case (Cons c cs)
  have "0 < length (c # cs)" by simp
  with Cons.prems have here: "image_match (drop 0 (c # cs)) = None"
    by blast
  have "image_match (drop i cs) = None" if "i < length cs" for i
  proof -
    have "Suc i < length (c # cs)" using that by simp
    with Cons.prems have "image_match (drop (Suc i) (c # cs)) = None"
      by blast
    then show ?thesis by simp
  qed
  then have "image_sub d cs = cs"
    using Cons.IH by blast
  with here show ?case by simp
qed

text \<open>
  What the rewrite does. An image reference \<open>![alt](target)\<close> (no \<open>]\<close> in \<open>alt\<close>, \<open>target\<close>
  not empty and without \<open>)\<close>) after a text without \<open>![\<close> is left as it is when \<open>target\<close>
  begins with the four characters \<open>http\<close>, and becomes \<open>![alt](/image/d/target)\<close>
  otherwise; the text before it is copied, and the rewrite goes on after it. A text
  without \<open>![\<close>, and more generally a text in which the pattern matches at no position,
  is returned as it is.
\<close>

lemma image_sub_reference:
  "(\<not> str_in (lit ''!['') pre \<and> 93 \<notin> set alt \<and> target \<noteq> [] \<and> 41 \<notin> set target \<longrightarrow>
      image_sub d (pre @ lit ''!['' @ alt @ lit '']('' @ target @ lit '')'' @ post) =
        pre @
        (if startswith target (lit ''http'')
         then lit ''!['' @ alt @ lit '']('' @ target @ lit '')''
         else lit ''!['' @ alt @ lit ''](/image/'' @ d @ lit ''/'' @ target @ lit '')'') @
        image_sub d post) \<and>
   (\<not> str_in (lit ''!['') s \<longrightarrow> image_sub d s = s) \<and>
   ((\<forall>i<length s. image_match (drop i s) = None) \<longrightarrow> image_sub d s = s)"
proof (intro conjI impI)
  assume a: "\<not> str_in (lit ''!['') pre \<and> 93 \<notin> set alt \<and> target \<noteq> [] \<and> 41 \<notin> set target"
  have l: "lit ''!['' = [33, 91]" "lit '']('' = [93, 40]" "lit '')'' = [41]"
    by (simp_all add: lit_def)
  have m: "image_match (33 # 91 # alt @ 93 # 40 # target @ 41 # post) = Some (alt, target, post)"
    using a by (intro image_match_reference) simp_all
  have "image_sub d (pre @ 33 # 91 # alt @ 93 # 40 # target @ 41 # post) =
          pre @ replace_image d alt target @ image_sub d post"
    using a m by (intro image_sub_skip) (simp_all add: str_in_def l)
  then show "image_sub d (pre @ lit ''!['' @ alt @ lit '']('' @ target @ lit '')'' @ post) =
        pre @
        (if startswith target (lit ''http'')
         then lit ''!['' @ alt @ lit '']('' @ target @ lit '')''
         else lit ''!['' @ alt @ lit ''](/image/'' @ d @ lit ''/'' @ target @ lit '')'') @
        image_sub d post"
    by (simp add: l replace_image_def)
next
  assume "\<not> str_in (lit ''!['') s"
  then have "\<not> sublist [33, 91] s"
    by (simp add: str_in_def lit_def)
  then show "image_sub d s = s"
    by (rule image_sub_plain)
next
  assume "\<forall>i<length s. image_match (drop i s) = None"
  then show "image_sub d s = s"
    by (rule image_sub_unmatched)
qed

lemma image_sub_reference_example:
  "image_sub (lit ''abc'') (lit ''See '' @ lit ''!['' @ lit ''x'' @ lit '']('' @ lit ''pic.png'' @ lit '')'' @ lit '' here'')
     = lit ''See ![x](/image/abc/pic.png) here'' \<and>
   image_sub (lit ''abc'') ([] @ lit ''!['' @ lit ''x'' @ lit '']('' @ lit ''http://y/z.png'' @ lit '')'' @ [])
     = lit ''![x](http://y/z.png)'' \<and>
   image_sub (lit ''abc'') (lit ''No image! [here]'') = lit ''No image! [here]'' \<and>
   image_sub (lit ''abc'') (lit ''![broken]('') = lit ''![broken](''"
proof -
  have h5: "\<forall>i<length (lit ''![broken](''). image_match (drop i (lit ''![broken]('')) = None"
    by (simp add: lit_def image_match_def All_less_Suc2 numeral_eq_Suc)
  have r4: "image_sub (lit ''abc'') (lit ''![broken]('') = lit ''![broken](''"
    using image_sub_reference [of "[]" "[]" "[]" "lit ''abc''" "[]" "lit ''![broken](''"] h5
    by blast
  have h1: "\<not> str_in (lit ''!['') (lit ''See '') \<and> 93 \<notin> set (lit ''x'') \<and> lit ''pic.png'' \<noteq> [] \<and>
      41 \<notin> set (lit ''pic.png'')"
    by (simp add: str_eval)
  have h2: "\<not> str_in (lit ''!['') [] \<and> 93 \<notin> set (lit ''x'') \<and> lit ''http://y/z.png'' \<noteq> [] \<and>
      41 \<notin> set (lit ''http://y/z.png'')"
    by (simp add: str_eval)
  have h3: "\<not> str_in (lit ''!['') (lit ''No image! [here]'')"
    and h4: "\<not> str_in (lit ''!['') (lit '' here'')"
    by (simp_all add: str_eval)
  have l1: "startswith (lit ''pic.png'') (lit ''http'') = False"
    and l2: "startswith (lit ''http://y/z.png'') (lit ''http'') = True"
    by (simp_all add: str_eval)
  have tail: "image_sub (lit ''abc'') (lit '' here'') = lit '' here''"
    using image_sub_reference [of "[]" "[]" "[]" "lit ''abc''" "[]" "lit '' here''"] h4
    by blast
  have e: "image_sub (lit ''abc'') [] = []"
    by simp
  have r1: "image_sub (lit ''abc'')
        (lit ''See '' @ lit ''!['' @ lit ''x'' @ lit '']('' @ lit ''pic.png'' @ lit '')'' @ lit '' here'') =
      lit ''See '' @
      (lit ''!['' @ lit ''x'' @ lit ''](/image/'' @ lit ''abc'' @ lit ''/'' @ lit ''pic.png'' @ lit '')'') @
      lit '' here''"
    using image_sub_reference [of "lit ''See ''" "lit ''x''" "lit ''pic.png''" "lit ''abc''" "lit '' here''" "[]",
        THEN conjunct1, THEN mp, OF h1]
    by (simp only: l1 tail if_False)
  have r2: "image_sub (lit ''abc'')
        ([] @ lit ''!['' @ lit ''x'' @ lit '']('' @ lit ''http://y/z.png'' @ lit '')'' @ []) =
      [] @ (lit ''!['' @ lit ''x'' @ lit '']('' @ lit ''http://y/z.png'' @ lit '')'') @ []"
    using image_sub_reference [of "[]" "lit ''x''" "lit ''http://y/z.png''" "lit ''abc''" "[]" "[]",
        THEN conjunct1, THEN mp, OF h2]
    by (simp only: l2 e if_True)
  have r3: "image_sub (lit ''abc'') (lit ''No image! [here]'') = lit ''No image! [here]''"
    using image_sub_reference [of "[]" "[]" "[]" "lit ''abc''" "[]" "lit ''No image! [here]''"] h3
    by blast
  have v1: "lit ''See '' @
      (lit ''!['' @ lit ''x'' @ lit ''](/image/'' @ lit ''abc'' @ lit ''/'' @ lit ''pic.png'' @ lit '')'') @
      lit '' here'' = lit ''See ![x](/image/abc/pic.png) here''"
    and v2: "[] @ (lit ''!['' @ lit ''x'' @ lit '']('' @ lit ''http://y/z.png'' @ lit '')'') @ [] =
      lit ''![x](http://y/z.png)''"
    by (simp_all add: lit_def)
  show ?thesis
    by (simp only: r1 r2 r3 r4 v1 v2)
qed

text \<open>
  C5. A reference whose target begins with a URL scheme is to be left as it is, and any
  other reference rewritten to the image route of the document. The code does otherwise:
  it tests the prefix \<open>http\<close>, not a URL scheme. A target with the scheme \<open>ftp\<close> and a
  target with the scheme written \<open>HTTP\<close> are rewritten, and the local file \<open>httpd.png\<close>
  is not.
\<close>

theorem image_scheme_not_tested:
  "image_sub (lit ''abc'') (lit ''![x](ftp://y/z.png)'') = lit ''![x](/image/abc/ftp://y/z.png)'' \<and>
   image_sub (lit ''abc'') (lit ''![x](HTTP://Y/z.png)'') = lit ''![x](/image/abc/HTTP://Y/z.png)'' \<and>
   image_sub (lit ''abc'') (lit ''![x](httpd.png)'') = lit ''![x](httpd.png)''"
  by (simp add: image_eval str_eval)

end
